theory Spec2Isabelle
  imports Main
begin

section \<open>Form data\<close>

text \<open>
  The action of \<^verbatim>\<open>app/routes/index.tsx\<close> reads a \<^verbatim>\<open>FormData\<close>: an ordered list of
  entries, each a name with a value that is either a string or a \<^verbatim>\<open>File\<close>. A field value
  is kept as the bytes of its UTF-8 encoding, the form in which it travels in the request
  body; the empty string is the empty list in either reading, which is all that
  \<^verbatim>\<open>name.length <= 0\<close> asks. Of a \<^verbatim>\<open>File\<close> only its name is kept: the code looks at
  nothing but \<^verbatim>\<open>typeof\<close>.
\<close>

datatype FormDataEntryValue = Text string | File string

type_synonym FormData = "(string \<times> FormDataEntryValue) list"

text \<open>\<^verbatim>\<open>fd.get(name)\<close>: the value of the first entry of that name, \<^verbatim>\<open>null\<close> when there is none.\<close>

definition get :: "FormData \<Rightarrow> string \<Rightarrow> FormDataEntryValue option" where
  "get fd name = map_of fd name"

text \<open>
  Everything the module throws is a plain \<^verbatim>\<open>Error\<close> with a message. \<open>NotFoundError\<close> is the
  rejection of the store when no record matches a \<^verbatim>\<open>where\<close>.
\<close>

datatype error = Error string | NotFoundError

section \<open>Numbers and \<^verbatim>\<open>parseInt\<close>\<close>

text \<open>
  The values \<^verbatim>\<open>parseInt\<close> can return: \<^verbatim>\<open>NaN\<close>, the two infinities, and the integral
  Numbers (\<^verbatim>\<open>-0\<close> is identified with \<open>0\<close>).
\<close>

datatype number = NaN | Infinity | NegInfinity | Num int

definition isNaN :: "number \<Rightarrow> bool" where
  "isNaN x = (x = NaN)"

text \<open>
  The Number for a mathematical integer: exact below \<open>2 ^ 53\<close>; beyond, the 53 leading
  bits rounded to nearest, ties to even, and an infinity once the rounded magnitude
  reaches \<open>2 ^ 1024\<close>. (ECMA-262 lets an implementation read the digits after the
  twentieth as zeros; the exact rounding is the one taken.) \<open>bits\<close> counts the binary
  digits of a positive magnitude.
\<close>

function bits :: "int \<Rightarrow> nat" where
  "bits n = (if n \<le> 0 then 0 else Suc (bits (n div 2)))"
  by pat_completeness auto
termination
  by (relation "measure nat") auto

declare bits.simps [simp del]

definition toNumber :: "int \<Rightarrow> number" where
  "toNumber v =
     (let a = \<bar>v\<bar> in
      if a < 2 ^ 53 then Num v
      else
        let e = bits a - 53;
            q = a div 2 ^ e;
            r = a mod 2 ^ e;
            half = 2 ^ (e - 1);
            q' = (if half < r \<or> (r = half \<and> odd q) then q + 1 else q);
            m = q' * 2 ^ e
        in if 2 ^ 1024 \<le> m then (if v < 0 then NegInfinity else Infinity)
           else Num (if v < 0 then - m else m))"

text \<open>
  The white space \<^verbatim>\<open>parseInt\<close> skips (\<^verbatim>\<open>StrWhiteSpaceChar\<close>: \<^verbatim>\<open>WhiteSpace\<close> and
  \<^verbatim>\<open>LineTerminator\<close>), each code point as its UTF-8 bytes: TAB, LF, VT, FF, CR, SP,
  U+00A0, U+1680, U+2000 to U+200A, U+2028, U+2029, U+202F, U+205F, U+3000, U+FEFF.
\<close>

definition StrWhiteSpaceChar :: "string list" where
  "StrWhiteSpaceChar =
     [[CHR 0x09], [CHR 0x0A], [CHR 0x0B], [CHR 0x0C], [CHR 0x0D], [CHR 0x20],
      [CHR 0xC2, CHR 0xA0],
      [CHR 0xE1, CHR 0x9A, CHR 0x80],
      [CHR 0xE2, CHR 0x80, CHR 0x80], [CHR 0xE2, CHR 0x80, CHR 0x81],
      [CHR 0xE2, CHR 0x80, CHR 0x82], [CHR 0xE2, CHR 0x80, CHR 0x83],
      [CHR 0xE2, CHR 0x80, CHR 0x84], [CHR 0xE2, CHR 0x80, CHR 0x85],
      [CHR 0xE2, CHR 0x80, CHR 0x86], [CHR 0xE2, CHR 0x80, CHR 0x87],
      [CHR 0xE2, CHR 0x80, CHR 0x88], [CHR 0xE2, CHR 0x80, CHR 0x89],
      [CHR 0xE2, CHR 0x80, CHR 0x8A],
      [CHR 0xE2, CHR 0x80, CHR 0xA8], [CHR 0xE2, CHR 0x80, CHR 0xA9],
      [CHR 0xE2, CHR 0x80, CHR 0xAF],
      [CHR 0xE2, CHR 0x81, CHR 0x9F],
      [CHR 0xE3, CHR 0x80, CHR 0x80],
      [CHR 0xEF, CHR 0xBB, CHR 0xBF]]"

definition leadingWhiteSpace :: "string \<Rightarrow> string option" where
  "leadingWhiteSpace s = find (\<lambda>w. take (length w) s = w) StrWhiteSpaceChar"

text \<open>\<^verbatim>\<open>TrimString(inputString, start)\<close>.\<close>

function trimStart :: "string \<Rightarrow> string" where
  "trimStart s =
     (case leadingWhiteSpace s of
        None \<Rightarrow> s
      | Some w \<Rightarrow> trimStart (drop (length w) s))"
  by pat_completeness auto
termination
proof (relation "measure length")
  show "wf (measure length)"
    by simp
next
  fix s w
  assume "leadingWhiteSpace s = Some w"
  then have "w \<in> set StrWhiteSpaceChar" and t: "take (length w) s = w"
    by (auto simp: leadingWhiteSpace_def find_Some_iff)
  then have "w \<noteq> []"
    by (auto simp: StrWhiteSpaceChar_def)
  with t have "s \<noteq> []" and "0 < length w"
    by auto
  then show "(drop (length w) s, s) \<in> measure length"
    by simp
qed

declare trimStart.simps [simp del]

definition isDigit :: "char \<Rightarrow> bool" where
  "isDigit c = (48 \<le> (of_char c :: int) \<and> (of_char c :: int) \<le> 57)"

definition digitValue :: "char \<Rightarrow> int" where
  "digitValue c = of_char c - 48"

text \<open>
  \<^verbatim>\<open>parseInt(string, 10)\<close>, step by step as ECMA-262 gives it: trim the leading white
  space, take one sign, keep the longest prefix of decimal digits (\<^verbatim>\<open>NaN\<close> when it is
  empty), and return the Number for its signed value.
\<close>

definition signOf :: "string \<Rightarrow> int" where
  "signOf S = (if S \<noteq> [] \<and> hd S = CHR ''-'' then - 1 else 1)"

definition dropSign :: "string \<Rightarrow> string" where
  "dropSign S = (if S \<noteq> [] \<and> (hd S = CHR ''+'' \<or> hd S = CHR ''-'') then tl S else S)"

definition parseInt10 :: "string \<Rightarrow> number" where
  "parseInt10 inputString =
     (let S = trimStart inputString;
          sign = signOf S;
          S' = dropSign S;
          Z = takeWhile isDigit S'
      in if Z = [] then NaN
         else toNumber (sign * foldl (\<lambda>a c. 10 * a + digitValue c) 0 Z))"

section \<open>Validation\<close>

definition validateId :: "FormData \<Rightarrow> error + number" where
  "validateId fd =
     (case get fd ''id'' of
        Some (Text id') \<Rightarrow>
          (let intValue = parseInt10 id' in
           if isNaN intValue then Inl (Error ''id must be numeric string'')
           else Inr intValue)
      | _ \<Rightarrow> Inl (Error ''id must be string''))"

definition validateName :: "FormData \<Rightarrow> error + string" where
  "validateName fd =
     (case get fd ''name'' of
        Some (Text name) \<Rightarrow>
          (if length name \<le> 0 then Inl (Error ''name must be at least 1 characters'')
           else Inr name)
      | _ \<Rightarrow> Inl (Error ''name must be string''))"

section \<open>The store interface\<close>

text \<open>
  A \<^verbatim>\<open>Task\<close> as the generated client types it: \<^verbatim>\<open>id\<close>, \<^verbatim>\<open>name\<close>, \<^verbatim>\<open>done\<close>.
\<close>

record Task =
  task_id :: int
  task_name :: string
  task_done :: bool

text \<open>
  The argument objects of the calls the action makes: \<^verbatim>\<open>create\<close> is given both fields,
  \<^verbatim>\<open>update\<close> a \<^verbatim>\<open>data\<close> object holding only the fields to write (an absent field is
  \<open>None\<close>) and the \<^verbatim>\<open>id\<close> of its \<^verbatim>\<open>where\<close>, \<^verbatim>\<open>delete\<close> the \<^verbatim>\<open>id\<close> of its \<^verbatim>\<open>where\<close>.
\<close>

record TaskCreateInput =
  data_done :: bool
  data_name :: string

record TaskUpdateInput =
  set_name :: "string option"
  set_done :: "bool option"

text \<open>
  \<^verbatim>\<open>prisma.task\<close> is imported from \<^verbatim>\<open>~/db.server\<close> and is taken as a parameter: the
  operations over a store of any type \<open>'s\<close>, each returning the store after the call with
  either the rejection or the \<^verbatim>\<open>Task\<close> the promise resolves to.
\<close>

record 's TaskDelegate =
  findMany :: "'s \<Rightarrow> Task list"
  create :: "TaskCreateInput \<Rightarrow> 's \<Rightarrow> (error + Task) \<times> 's"
  update :: "number \<Rightarrow> TaskUpdateInput \<Rightarrow> 's \<Rightarrow> (error + Task) \<times> 's"
  delete :: "number \<Rightarrow> 's \<Rightarrow> (error + Task) \<times> 's"

section \<open>The loader and the action\<close>

definition loader :: "'s TaskDelegate \<Rightarrow> 's \<Rightarrow> Task list" where
  "loader prisma_task s = findMany prisma_task s"

text \<open>
  \<^verbatim>\<open>await prisma.task.f(...); return null\<close>: a rejection propagates to the caller, the
  resolved \<^verbatim>\<open>Task\<close> is dropped.
\<close>

definition returnNull :: "(error + Task) \<times> 's \<Rightarrow> (error + unit) \<times> 's" where
  "returnNull r = (case fst r of Inl e \<Rightarrow> Inl e | Inr t \<Rightarrow> Inr (), snd r)"

text \<open>
  The action. The argument object of a call is built before the call is made and its
  properties are evaluated in the order written, so a validator that throws ends the
  action with the store as it was: \<^verbatim>\<open>validateName\<close> before \<^verbatim>\<open>validateId\<close> in the
  \<^verbatim>\<open>update\<close> branch. The \<^verbatim>\<open>switch\<close> compares with \<^verbatim>\<open>===\<close>: a missing field or a
  \<^verbatim>\<open>File\<close> reaches \<^verbatim>\<open>default\<close>.
\<close>

definition action :: "'s TaskDelegate \<Rightarrow> FormData \<Rightarrow> 's \<Rightarrow> (error + unit) \<times> 's" where
  "action prisma_task fd s =
     (let act = get fd ''action'' in
      if act = Some (Text ''add'') then
        (case validateName fd of
           Inl e \<Rightarrow> (Inl e, s)
         | Inr name \<Rightarrow>
             returnNull (create prisma_task \<lparr>data_done = False, data_name = name\<rparr> s))
      else if act = Some (Text ''update'') then
        (case validateName fd of
           Inl e \<Rightarrow> (Inl e, s)
         | Inr name \<Rightarrow>
             (case validateId fd of
                Inl e \<Rightarrow> (Inl e, s)
              | Inr id' \<Rightarrow>
                  returnNull
                    (update prisma_task id' \<lparr>set_name = Some name, set_done = None\<rparr> s)))
      else if act = Some (Text ''done'') \<or> act = Some (Text ''undone'') then
        (case validateId fd of
           Inl e \<Rightarrow> (Inl e, s)
         | Inr id' \<Rightarrow>
             returnNull
               (update prisma_task id'
                  \<lparr>set_name = None, set_done = Some (act = Some (Text ''done''))\<rparr> s))
      else if act = Some (Text ''delete'') then
        (case validateId fd of
           Inl e \<Rightarrow> (Inl e, s)
         | Inr id' \<Rightarrow> returnNull (delete prisma_task id' s))
      else (Inl (Error ''unknown action''), s))"

section \<open>The task store\<close>

text \<open>
  Modelled from the spec: the persistent task store behind \<^verbatim>\<open>prisma.task\<close> (the client
  of \<^verbatim>\<open>~/db.server\<close> and its schema are not part of the source). Section 6 of the
  specification gives it as a sequence of Tasks read in full by \<^verbatim>\<open>listTasks\<close>, with
  \<^verbatim>\<open>createTask\<close> assigning the identifier, and \<^verbatim>\<open>updateTaskName\<close>, \<^verbatim>\<open>setTaskDone\<close> and
  \<^verbatim>\<open>deleteTask\<close> acting on the Task of a given identifier and failing with
  \<open>NotFoundError\<close> when there is none. The two updates are one operation here, writing
  the fields its \<^verbatim>\<open>data\<close> holds. Identifiers come from a counter.
\<close>

record store =
  table :: "Task list"
  next_id :: int

definition matches :: "number \<Rightarrow> Task \<Rightarrow> bool" where
  "matches w t = (w = Num (task_id t))"

definition write_fields :: "TaskUpdateInput \<Rightarrow> Task \<Rightarrow> Task" where
  "write_fields d t =
     t\<lparr>task_name := (case set_name d of None \<Rightarrow> task_name t | Some n \<Rightarrow> n),
       task_done := (case set_done d of None \<Rightarrow> task_done t | Some b \<Rightarrow> b)\<rparr>"

definition listTasks :: "store \<Rightarrow> Task list" where
  "listTasks s = table s"

definition createTask :: "TaskCreateInput \<Rightarrow> store \<Rightarrow> (error + Task) \<times> store" where
  "createTask d s =
     (let t = \<lparr>task_id = next_id s, task_name = data_name d, task_done = data_done d\<rparr>
      in (Inr t, s\<lparr>table := table s @ [t], next_id := next_id s + 1\<rparr>))"

definition updateTask :: "number \<Rightarrow> TaskUpdateInput \<Rightarrow> store \<Rightarrow> (error + Task) \<times> store" where
  "updateTask w d s =
     (case find (matches w) (table s) of
        None \<Rightarrow> (Inl NotFoundError, s)
      | Some t \<Rightarrow>
          (Inr (write_fields d t),
           s\<lparr>table := map (\<lambda>u. if matches w u then write_fields d u else u) (table s)\<rparr>))"

definition deleteTask :: "number \<Rightarrow> store \<Rightarrow> (error + Task) \<times> store" where
  "deleteTask w s =
     (case find (matches w) (table s) of
        None \<Rightarrow> (Inl NotFoundError, s)
      | Some t \<Rightarrow> (Inr t, s\<lparr>table := filter (\<lambda>u. \<not> matches w u) (table s)\<rparr>))"

definition prisma_task :: "store TaskDelegate" where
  "prisma_task =
     \<lparr>findMany = listTasks, create = createTask, update = updateTask, delete = deleteTask\<rparr>"

section \<open>The rows of the list\<close>

text \<open>
  \<^verbatim>\<open>Index\<close> holds the tasks the loader returned and \<^verbatim>\<open>editingId\<close>
  (\<^verbatim>\<open>useState<number | null>(null)\<close>); every \<^verbatim>\<open>TaskItem\<close> holds a fetcher of its own, and
  \<^verbatim>\<open>isPending\<close> says its \<^verbatim>\<open>submission\<close> is defined. The rows are keyed by \<^verbatim>\<open>task.id\<close>, so
  the submissions are a map from identifiers; of a submission only the \<^verbatim>\<open>action\<close> it
  carries is kept.
\<close>

record Index_state =
  tasks :: "Task list"
  editingId :: "int option"
  submissions :: "int \<rightharpoonup> string"

text \<open>
  The state at the first render of a loaded list: nothing edited, nothing submitted. The
  effects of that render call \<^verbatim>\<open>onFinishEditing\<close> and find \<^verbatim>\<open>editingId\<close> null already.
\<close>

definition Index :: "Task list \<Rightarrow> Index_state" where
  "Index loaded = \<lparr>tasks = loaded, editingId = None, submissions = Map.empty\<rparr>"

definition onStartEditing :: "int \<Rightarrow> Index_state \<Rightarrow> Index_state" where
  "onStartEditing id' st = st\<lparr>editingId := Some id'\<rparr>"

text \<open>
  \<^verbatim>\<open>useCallback(() => setEditingId(null), [])\<close>: the identifier a row passes is not read.
\<close>

definition onFinishEditing :: "int \<Rightarrow> Index_state \<Rightarrow> Index_state" where
  "onFinishEditing id' st = st\<lparr>editingId := None\<rparr>"

definition isEditing :: "Index_state \<Rightarrow> Task \<Rightarrow> bool" where
  "isEditing st task = (editingId st = Some (task_id task))"

definition isPending :: "Index_state \<Rightarrow> Task \<Rightarrow> bool" where
  "isPending st task = (submissions st (task_id task) \<noteq> None)"

text \<open>The body of the row's \<^verbatim>\<open>useEffect\<close>, and \<^verbatim>\<open>onClickText\<close>.\<close>

definition effect :: "Task \<Rightarrow> Index_state \<Rightarrow> Index_state" where
  "effect task st = (if \<not> isPending st task then onFinishEditing (task_id task) st else st)"

definition onClickText :: "Task \<Rightarrow> Index_state \<Rightarrow> Index_state" where
  "onClickText task st = (if \<not> isPending st task then onStartEditing (task_id task) st else st)"

text \<open>
  \<^verbatim>\<open>fetcher.submit\<close> and the submit of a \<^verbatim>\<open>fetcher.Form\<close>: the row's submission becomes
  defined. The effect runs, \<^verbatim>\<open>isPending\<close> having changed, and finds the row pending.
\<close>

definition submit :: "Task \<Rightarrow> string \<Rightarrow> Index_state \<Rightarrow> Index_state" where
  "submit task act st =
     effect task (st\<lparr>submissions := (submissions st)(task_id task \<mapsto> act)\<rparr>)"

text \<open>
  The loader has run again and \<^verbatim>\<open>useLoaderData\<close> gives another list. A row whose task is
  no longer listed unmounts: its fetcher goes with it, and nothing runs for it (the
  effect returns no cleanup). A row whose task is new mounts with a fetcher of its own,
  no submission in it, and its effect runs after that first render. The other rows keep
  their fetchers, and their effects do not run: none of \<^verbatim>\<open>isPending\<close>,
  \<^verbatim>\<open>onFinishEditing\<close> and \<^verbatim>\<open>task.id\<close> has changed.
\<close>

definition reload :: "Task list \<Rightarrow> Index_state \<Rightarrow> Index_state" where
  "reload loaded st =
     fold effect
       (filter (\<lambda>task. task_id task \<notin> task_id ` set (tasks st)) loaded)
       (st\<lparr>tasks := loaded,
           submissions :=
             (\<lambda>i. if i \<in> task_id ` set (tasks st) \<and> i \<in> task_id ` set loaded
                  then submissions st i else None)\<rparr>)"

text \<open>
  The submission of a row is over, whatever its outcome, and the list comes reloaded
  with it: the fetcher returns to idle in the update that brings the new loader data.
  If the row is still listed, \<^verbatim>\<open>isPending\<close> has changed back and its effect runs again;
  if its task is gone (a delete that succeeded), the row unmounts and its effect does
  not run.
\<close>

definition settle :: "Task \<Rightarrow> Task list \<Rightarrow> Index_state \<Rightarrow> Index_state" where
  "settle task loaded st =
     (let st' = reload loaded (st\<lparr>submissions := (submissions st)(task_id task := None)\<rparr>)
      in case find (\<lambda>task'. task_id task' = task_id task) loaded of
           None \<Rightarrow> st'
         | Some task' \<Rightarrow> effect task' st')"

text \<open>
  What can happen to the row of a task: a click on its name area, on Cancel (rendered
  only while the row is editing, and stopping the click from reaching the name area), a
  change of its checkbox, a submit of its update form (rendered only while editing; a
  click on Update reaches the name area too, where it sets the identifier the row already
  holds), a submit of its delete form, and the end of its submission, with the list as
  reloaded. Every control is disabled while the row is pending. An event for an
  identifier with no row does nothing. \<open>Reloaded\<close> is a reload that ends no submission
  of a row: the one after an add, whose fetcher belongs to the add form.
\<close>

datatype event =
  ClickText int
| ClickCancel int
| ChangeCheckbox int
| SubmitUpdate int
| SubmitDelete int
| Settled int "Task list"
| Reloaded "Task list"

fun row :: "event \<Rightarrow> int option" where
  "row (ClickText i) = Some i"
| "row (ClickCancel i) = Some i"
| "row (ChangeCheckbox i) = Some i"
| "row (SubmitUpdate i) = Some i"
| "row (SubmitDelete i) = Some i"
| "row (Settled i loaded) = Some i"
| "row (Reloaded loaded) = None"

fun handle :: "event \<Rightarrow> Task \<Rightarrow> Index_state \<Rightarrow> Index_state" where
  "handle (ClickText i) task st = onClickText task st"
| "handle (ClickCancel i) task st =
     (if isEditing st task \<and> \<not> isPending st task then onFinishEditing (task_id task) st
      else st)"
| "handle (ChangeCheckbox i) task st =
     (if \<not> isPending st task
      then submit task (if task_done task then ''undone'' else ''done'') st
      else st)"
| "handle (SubmitUpdate i) task st =
     (if isEditing st task \<and> \<not> isPending st task then submit task ''update'' st else st)"
| "handle (SubmitDelete i) task st =
     (if \<not> isPending st task then submit task ''delete'' st else st)"
| "handle (Settled i loaded) task st =
     (if isPending st task then settle task loaded st else st)"
| "handle (Reloaded loaded) task st = reload loaded st"

definition step :: "event \<Rightarrow> Index_state \<Rightarrow> Index_state" where
  "step e st =
     (case row e of
        None \<Rightarrow> (case e of Reloaded loaded \<Rightarrow> reload loaded st | _ \<Rightarrow> st)
      | Some i \<Rightarrow>
          (case find (\<lambda>task. task_id task = i) (tasks st) of
             None \<Rightarrow> st
           | Some task \<Rightarrow> handle e task st))"

definition run :: "event list \<Rightarrow> Index_state \<Rightarrow> Index_state" where
  "run es st = foldl (\<lambda>s e. step e s) st es"

text \<open>
  The lists an event brings. \<open>well_keyed\<close>: their tasks have distinct identifiers, as
  the rows of a store have. \<open>mounts\<close>: the event brings a task that had no row.
\<close>

fun loaded_by :: "event \<Rightarrow> Task list option" where
  "loaded_by (Settled i loaded) = Some loaded"
| "loaded_by (Reloaded loaded) = Some loaded"
| "loaded_by e = None"

definition well_keyed :: "event \<Rightarrow> bool" where
  "well_keyed e =
     (case loaded_by e of None \<Rightarrow> True | Some loaded \<Rightarrow> distinct (map task_id loaded))"

definition mounts :: "Index_state \<Rightarrow> event \<Rightarrow> bool" where
  "mounts st e =
     (case loaded_by e of
        None \<Rightarrow> False
      | Some loaded \<Rightarrow> list_ex (\<lambda>task. task_id task \<notin> task_id ` set (tasks st)) loaded)"

section \<open>Properties of the validators\<close>

lemmas parse_defs =
  validateId_def get_def parseInt10_def trimStart.simps leadingWhiteSpace_def
  StrWhiteSpaceChar_def isDigit_def digitValue_def toNumber_def isNaN_def signOf_def
  dropSign_def

lemma toNumber_not_NaN: "toNumber v \<noteq> NaN"
  by (simp add: toNumber_def Let_def)

lemma toNumber_exact: "\<bar>n\<bar> < 2 ^ 53 \<Longrightarrow> toNumber n = Num n"
  by (simp add: toNumber_def Let_def)

lemma bits_54: "bits 9007199254740993 = 54"
  by (simp add: bits.simps)

lemma parseInt10_NaN_iff:
  "parseInt10 s = NaN \<longleftrightarrow> takeWhile isDigit (dropSign (trimStart s)) = []"
  by (simp add: parseInt10_def Let_def toNumber_not_NaN)

text \<open>
  C2, as stated, at the field map with no entry at all: \<^verbatim>\<open>name\<close> is missing,
  \<^verbatim>\<open>fd.get\<close> gives \<^verbatim>\<open>null\<close>, the \<^verbatim>\<open>typeof\<close> test throws first, and the failure is not
  the "at least 1 characters" one.
\<close>

theorem validateName_missing_counterexample:
  "get [] ''name'' = None \<and>
   validateName [] \<noteq> Inl (Error ''name must be at least 1 characters'')"
  by (simp add: validateName_def get_def)

text \<open>
  C2, amended: \<^verbatim>\<open>validateName\<close> fails with "name must be at least 1 characters" exactly
  for the field maps whose \<^verbatim>\<open>name\<close> is the empty string, and with "name must be string"
  exactly for those whose \<^verbatim>\<open>name\<close> is missing or is not text.
\<close>

theorem validateName_failures:
  "(validateName fd = Inl (Error ''name must be at least 1 characters'')
      \<longleftrightarrow> get fd ''name'' = Some (Text [])) \<and>
   (validateName fd = Inl (Error ''name must be string'')
      \<longleftrightarrow> (get fd ''name'' = None \<or> (\<exists>f. get fd ''name'' = Some (File f))))"
  by (auto simp: validateName_def split: option.splits FormDataEntryValue.splits)

text \<open>
  C3, as stated, at \<^verbatim>\<open>id = "12abc"\<close>: the text is not a numeral (it holds characters
  that are no digits), yet \<^verbatim>\<open>parseInt\<close> reads its leading digits and \<^verbatim>\<open>validateId\<close>
  returns 12 instead of failing.
\<close>

theorem validateId_prefix_counterexample:
  "list_ex (\<lambda>c. \<not> isDigit c) ''12abc'' \<and>
   validateId [(''id'', Text ''12abc'')] = Inr (Num 12)"
  by (simp add: parse_defs)

text \<open>
  C3, amended: \<^verbatim>\<open>validateId\<close> fails with "id must be numeric string" exactly for the
  field maps whose \<^verbatim>\<open>id\<close> is text that, after its leading white space and one optional
  sign, does not begin with a decimal digit. It returns a value exactly for those whose
  \<^verbatim>\<open>id\<close> is text that does begin with a decimal digit there, and the value is the
  Number \<^verbatim>\<open>parseInt\<close> gives for the signed integer its longest digit prefix writes: that
  integer itself when its magnitude is below \<open>2 ^ 53\<close>. For \<^verbatim>\<open>id = "42"\<close> it returns 42.
\<close>

theorem validateId_numeric_string:
  "(validateId fd = Inl (Error ''id must be numeric string'')
      \<longleftrightarrow> (\<exists>s. get fd ''id'' = Some (Text s) \<and>
                takeWhile isDigit (dropSign (trimStart s)) = [])) \<and>
   (validateId fd = Inr v
      \<longleftrightarrow> (\<exists>s. get fd ''id'' = Some (Text s) \<and>
                takeWhile isDigit (dropSign (trimStart s)) \<noteq> [] \<and>
                v = toNumber (signOf (trimStart s) *
                      foldl (\<lambda>a c. 10 * a + digitValue c) 0
                        (takeWhile isDigit (dropSign (trimStart s)))))) \<and>
   (\<bar>n\<bar> < 2 ^ 53 \<longrightarrow> toNumber n = Num n) \<and>
   validateId [(''id'', Text ''42'')] = Inr (Num 42)"
proof (intro conjI)
  show "validateId fd = Inl (Error ''id must be numeric string'')
      \<longleftrightarrow> (\<exists>s. get fd ''id'' = Some (Text s) \<and>
                takeWhile isDigit (dropSign (trimStart s)) = [])"
    by (auto simp: validateId_def Let_def isNaN_def parseInt10_NaN_iff
        split: option.splits FormDataEntryValue.splits)
  show "validateId fd = Inr v
      \<longleftrightarrow> (\<exists>s. get fd ''id'' = Some (Text s) \<and>
                takeWhile isDigit (dropSign (trimStart s)) \<noteq> [] \<and>
                v = toNumber (signOf (trimStart s) *
                      foldl (\<lambda>a c. 10 * a + digitValue c) 0
                        (takeWhile isDigit (dropSign (trimStart s)))))"
  proof (cases "get fd ''id''")
    case None
    then show ?thesis
      by (simp add: validateId_def)
  next
    case (Some x)
    show ?thesis
    proof (cases x)
      case (Text s)
      with Some show ?thesis
        by (auto simp: validateId_def Let_def isNaN_def parseInt10_def toNumber_not_NaN)
    next
      case (File f)
      with Some show ?thesis
        by (simp add: validateId_def)
    qed
  qed
  show "\<bar>n\<bar> < 2 ^ 53 \<longrightarrow> toNumber n = Num n"
    by (simp add: toNumber_exact)
  show "validateId [(''id'', Text ''42'')] = Inr (Num 42)"
    by (simp add: parse_defs)
qed

text \<open>
  At \<^verbatim>\<open>"12abc"\<close>, whose prefix is below \<open>2 ^ 53\<close>, and at \<^verbatim>\<open>"9007199254740993abc"\<close>,
  whose prefix is not and is rounded.
\<close>

theorem validateId_numeric_string_witness:
  "validateId [(''id'', Text ''12abc'')] = Inr (Num 12) \<and>
   validateId [(''id'', Text ''9007199254740993abc'')] = Inr (Num 9007199254740992) \<and>
   toNumber 12 = Num 12"
proof -
  note t = validateId_numeric_string
  have a: "\<exists>s. get [(''id'', Text ''12abc'')] ''id'' = Some (Text s) \<and>
      takeWhile isDigit (dropSign (trimStart s)) \<noteq> [] \<and>
      Num 12 = toNumber (signOf (trimStart s) *
         foldl (\<lambda>a c. 10 * a + digitValue c) 0 (takeWhile isDigit (dropSign (trimStart s))))"
    by (rule exI [of _ "''12abc''"]) (simp add: parse_defs)
  have b: "\<exists>s. get [(''id'', Text ''9007199254740993abc'')] ''id'' = Some (Text s) \<and>
      takeWhile isDigit (dropSign (trimStart s)) \<noteq> [] \<and>
      Num 9007199254740992 = toNumber (signOf (trimStart s) *
         foldl (\<lambda>a c. 10 * a + digitValue c) 0 (takeWhile isDigit (dropSign (trimStart s))))"
    by (rule exI [of _ "''9007199254740993abc''"]) (simp add: parse_defs bits_54)
  have c: "\<bar>12 :: int\<bar> < 2 ^ 53"
    by simp
  have 1: "validateId [(''id'', Text ''12abc'')] = Inr (Num 12)"
    by (rule t [THEN conjunct2, THEN conjunct1, THEN iffD2, OF a])
  have 2: "validateId [(''id'', Text ''9007199254740993abc'')] = Inr (Num 9007199254740992)"
    by (rule t [THEN conjunct2, THEN conjunct1, THEN iffD2, OF b])
  have 3: "toNumber 12 = Num 12"
    by (rule t [THEN conjunct2, THEN conjunct2, THEN conjunct1, rule_format, OF c])
  show ?thesis
    using 1 2 3 by (intro conjI)
qed

section \<open>Properties of the action\<close>

text \<open>What the action does in each branch, for any store behind \<^verbatim>\<open>prisma.task\<close>.\<close>

lemma action_add:
  "get fd ''action'' = Some (Text ''add'') \<Longrightarrow>
   action ops fd s =
     (case validateName fd of
        Inl e \<Rightarrow> (Inl e, s)
      | Inr name \<Rightarrow> returnNull (create ops \<lparr>data_done = False, data_name = name\<rparr> s))"
  by (simp add: action_def)

lemma action_update:
  "get fd ''action'' = Some (Text ''update'') \<Longrightarrow>
   action ops fd s =
     (case validateName fd of
        Inl e \<Rightarrow> (Inl e, s)
      | Inr name \<Rightarrow>
          (case validateId fd of
             Inl e \<Rightarrow> (Inl e, s)
           | Inr w \<Rightarrow> returnNull (update ops w \<lparr>set_name = Some name, set_done = None\<rparr> s)))"
  by (simp add: action_def)

lemma action_done:
  "get fd ''action'' = Some (Text ''done'') \<Longrightarrow>
   action ops fd s =
     (case validateId fd of
        Inl e \<Rightarrow> (Inl e, s)
      | Inr w \<Rightarrow> returnNull (update ops w \<lparr>set_name = None, set_done = Some True\<rparr> s))"
  by (simp add: action_def Let_def split: sum.splits)

lemma action_undone:
  "get fd ''action'' = Some (Text ''undone'') \<Longrightarrow>
   action ops fd s =
     (case validateId fd of
        Inl e \<Rightarrow> (Inl e, s)
      | Inr w \<Rightarrow> returnNull (update ops w \<lparr>set_name = None, set_done = Some False\<rparr> s))"
  by (simp add: action_def Let_def split: sum.splits)

lemma action_delete:
  "get fd ''action'' = Some (Text ''delete'') \<Longrightarrow>
   action ops fd s =
     (case validateId fd of
        Inl e \<Rightarrow> (Inl e, s)
      | Inr w \<Rightarrow> returnNull (delete ops w s))"
  by (simp add: action_def)

lemma action_default:
  "get fd ''action'' \<noteq> Some (Text ''add'') \<Longrightarrow>
   get fd ''action'' \<noteq> Some (Text ''update'') \<Longrightarrow>
   get fd ''action'' \<noteq> Some (Text ''done'') \<Longrightarrow>
   get fd ''action'' \<noteq> Some (Text ''undone'') \<Longrightarrow>
   get fd ''action'' \<noteq> Some (Text ''delete'') \<Longrightarrow>
   action ops fd s = (Inl (Error ''unknown action''), s)"
  by (simp add: action_def)

lemma validateName_Inl:
  "validateName fd = Inl e \<Longrightarrow>
   e = Error ''name must be string'' \<or> e = Error ''name must be at least 1 characters''"
  unfolding validateName_def
  by (cases "get fd ''name''"; cases "the (get fd ''name'')") (auto split: if_splits)

lemma validateId_Inl:
  "validateId fd = Inl e \<Longrightarrow>
   e = Error ''id must be string'' \<or> e = Error ''id must be numeric string''"
  unfolding validateId_def Let_def
  by (cases "get fd ''id''"; cases "the (get fd ''id'')") (auto split: if_splits)

lemma name_error_not_id_error:
  "validateName fd = Inl e \<Longrightarrow> validateId fd = Inl e' \<Longrightarrow> e \<noteq> e'"
  by (drule validateName_Inl, drule validateId_Inl) auto

text \<open>
  C4: whenever a validator that a branch calls fails, the action ends with that failure
  and with the store it was given, whatever the operations of the store are: no call to
  the store is reached. In the \<^verbatim>\<open>update\<close> branch the name is validated first, so a
  failure of \<^verbatim>\<open>validateId\<close> is the one received only when the name is valid.
\<close>

theorem validation_failure_leaves_store:
  "(get fd ''action'' = Some (Text ''add'') \<and> validateName fd = Inl e
      \<longrightarrow> action ops fd s = (Inl e, s)) \<and>
   (get fd ''action'' = Some (Text ''update'') \<and> validateName fd = Inl e
      \<longrightarrow> action ops fd s = (Inl e, s)) \<and>
   (get fd ''action'' = Some (Text ''update'') \<and> validateName fd = Inr n \<and>
    validateId fd = Inl e
      \<longrightarrow> action ops fd s = (Inl e, s)) \<and>
   (get fd ''action'' \<in> {Some (Text ''done''), Some (Text ''undone''), Some (Text ''delete'')} \<and>
    validateId fd = Inl e
      \<longrightarrow> action ops fd s = (Inl e, s))"
proof (intro conjI impI)
  assume "get fd ''action'' = Some (Text ''add'') \<and> validateName fd = Inl e"
  then show "action ops fd s = (Inl e, s)"
    by (simp add: action_add)
next
  assume "get fd ''action'' = Some (Text ''update'') \<and> validateName fd = Inl e"
  then show "action ops fd s = (Inl e, s)"
    by (simp add: action_update)
next
  assume "get fd ''action'' = Some (Text ''update'') \<and> validateName fd = Inr n \<and>
    validateId fd = Inl e"
  then show "action ops fd s = (Inl e, s)"
    by (simp add: action_update)
next
  assume a: "get fd ''action'' \<in> {Some (Text ''done''), Some (Text ''undone''), Some (Text ''delete'')} \<and>
    validateId fd = Inl e"
  then consider "get fd ''action'' = Some (Text ''done'')"
    | "get fd ''action'' = Some (Text ''undone'')"
    | "get fd ''action'' = Some (Text ''delete'')"
    by blast
  then show "action ops fd s = (Inl e, s)"
  proof cases
    case 1
    with a show ?thesis by (simp add: action_done)
  next
    case 2
    with a show ?thesis by (simp add: action_undone)
  next
    case 3
    with a show ?thesis by (simp add: action_delete)
  qed
qed

text \<open>
  The four cases at concrete field maps: an empty name in \<^verbatim>\<open>add\<close>, a missing name in
  \<^verbatim>\<open>update\<close>, a non-numeric id in \<^verbatim>\<open>update\<close>, a missing id in \<^verbatim>\<open>delete\<close>.
\<close>

theorem validation_failure_leaves_store_witness:
  "action prisma_task [(''action'', Text ''add''), (''name'', Text [])] \<lparr>table = [], next_id = 1\<rparr>
     = (Inl (Error ''name must be at least 1 characters''), \<lparr>table = [], next_id = 1\<rparr>) \<and>
   action prisma_task [(''action'', Text ''update''), (''id'', Text ''1'')] \<lparr>table = [], next_id = 1\<rparr>
     = (Inl (Error ''name must be string''), \<lparr>table = [], next_id = 1\<rparr>) \<and>
   action prisma_task [(''action'', Text ''update''), (''name'', Text ''x''), (''id'', Text ''abc'')]
       \<lparr>table = [], next_id = 1\<rparr>
     = (Inl (Error ''id must be numeric string''), \<lparr>table = [], next_id = 1\<rparr>) \<and>
   action prisma_task [(''action'', Text ''delete'')] \<lparr>table = [], next_id = 1\<rparr>
     = (Inl (Error ''id must be string''), \<lparr>table = [], next_id = 1\<rparr>)"
proof -
  let ?s = "\<lparr>table = [], next_id = 1\<rparr>"
  let ?fd1 = "[(''action'', Text ''add''), (''name'', Text [])]"
  let ?fd2 = "[(''action'', Text ''update''), (''id'', Text ''1'')]"
  let ?fd3 = "[(''action'', Text ''update''), (''name'', Text ''x''), (''id'', Text ''abc'')]"
  let ?fd4 = "[(''action'', Text ''delete'')]"
  have 1: "get ?fd1 ''action'' = Some (Text ''add'') \<and>
      validateName ?fd1 = Inl (Error ''name must be at least 1 characters'')"
    by (simp add: get_def validateName_def)
  have 2: "get ?fd2 ''action'' = Some (Text ''update'') \<and>
      validateName ?fd2 = Inl (Error ''name must be string'')"
    by (simp add: get_def validateName_def)
  have 3: "get ?fd3 ''action'' = Some (Text ''update'') \<and> validateName ?fd3 = Inr ''x'' \<and>
      validateId ?fd3 = Inl (Error ''id must be numeric string'')"
    by (simp add: validateName_def parse_defs)
  have 4: "get ?fd4 ''action''
        \<in> {Some (Text ''done''), Some (Text ''undone''), Some (Text ''delete'')} \<and>
      validateId ?fd4 = Inl (Error ''id must be string'')"
    by (simp add: parse_defs)
  note t = validation_failure_leaves_store
  have c1: "action prisma_task ?fd1 ?s = (Inl (Error ''name must be at least 1 characters''), ?s)"
    by (rule t [THEN conjunct1, rule_format, OF 1])
  have c2: "action prisma_task ?fd2 ?s = (Inl (Error ''name must be string''), ?s)"
    by (rule t [THEN conjunct2, THEN conjunct1, rule_format, OF 2])
  have c3: "action prisma_task ?fd3 ?s = (Inl (Error ''id must be numeric string''), ?s)"
    by (rule t [THEN conjunct2, THEN conjunct2, THEN conjunct1, rule_format, OF 3])
  have c4: "action prisma_task ?fd4 ?s = (Inl (Error ''id must be string''), ?s)"
    by (rule t [THEN conjunct2, THEN conjunct2, THEN conjunct2, rule_format, OF 4])
  show ?thesis
    using c1 c2 c3 c4 by (intro conjI)
qed

text \<open>
  C9: when the \<^verbatim>\<open>action\<close> field is missing, is a file, or is a string other than
  \<^verbatim>\<open>add\<close>, \<^verbatim>\<open>update\<close>, \<^verbatim>\<open>done\<close>, \<^verbatim>\<open>undone\<close> and \<^verbatim>\<open>delete\<close>, the action fails with
  "unknown action" and returns the store it was given, whatever the operations of the
  store are.
\<close>

theorem unknown_action:
  assumes "get fd ''action'' \<notin> {Some (Text ''add''), Some (Text ''update''), Some (Text ''done''),
             Some (Text ''undone''), Some (Text ''delete'')}"
  shows "action ops fd s = (Inl (Error ''unknown action''), s)"
  using assms by (intro action_default) auto

text \<open>At \<^verbatim>\<open>{action: "bogus"}\<close> and at the empty field map.\<close>

theorem unknown_action_witness:
  "action prisma_task [(''action'', Text ''bogus'')] \<lparr>table = [], next_id = 1\<rparr>
     = (Inl (Error ''unknown action''), \<lparr>table = [], next_id = 1\<rparr>) \<and>
   action prisma_task [] \<lparr>table = [], next_id = 1\<rparr>
     = (Inl (Error ''unknown action''), \<lparr>table = [], next_id = 1\<rparr>)"
proof
  have "get [(''action'', Text ''bogus'')] ''action'' \<notin> {Some (Text ''add''), Some (Text ''update''),
      Some (Text ''done''), Some (Text ''undone''), Some (Text ''delete'')}"
    by (simp add: get_def)
  then show "action prisma_task [(''action'', Text ''bogus'')] \<lparr>table = [], next_id = 1\<rparr>
     = (Inl (Error ''unknown action''), \<lparr>table = [], next_id = 1\<rparr>)"
    by (rule unknown_action)
  have "get [] ''action'' \<notin> {Some (Text ''add''), Some (Text ''update''),
      Some (Text ''done''), Some (Text ''undone''), Some (Text ''delete'')}"
    by (simp add: get_def)
  then show "action prisma_task [] \<lparr>table = [], next_id = 1\<rparr>
     = (Inl (Error ''unknown action''), \<lparr>table = [], next_id = 1\<rparr>)"
    by (rule unknown_action)
qed

text \<open>
  C10: in the \<^verbatim>\<open>update\<close> branch, when both \<^verbatim>\<open>validateName\<close> and \<^verbatim>\<open>validateId\<close> fail,
  the caller receives the failure of \<^verbatim>\<open>validateName\<close>, which is never the failure of
  \<^verbatim>\<open>validateId\<close>, and the store is as it was.
\<close>

theorem update_name_error_first:
  assumes "get fd ''action'' = Some (Text ''update'')"
    and "validateName fd = Inl e"
    and "validateId fd = Inl e'"
  shows "action ops fd s = (Inl e, s) \<and> e \<noteq> e'"
proof
  show "action ops fd s = (Inl e, s)"
    using assms by (simp add: action_update)
  show "e \<noteq> e'"
    using assms(2,3) by (rule name_error_not_id_error)
qed

text \<open>At an \<^verbatim>\<open>update\<close> with an empty name and the id \<^verbatim>\<open>"abc"\<close>.\<close>

theorem update_name_error_first_witness:
  "action prisma_task [(''action'', Text ''update''), (''name'', Text []), (''id'', Text ''abc'')]
       \<lparr>table = [], next_id = 1\<rparr>
     = (Inl (Error ''name must be at least 1 characters''), \<lparr>table = [], next_id = 1\<rparr>) \<and>
   validateId [(''action'', Text ''update''), (''name'', Text []), (''id'', Text ''abc'')]
     = Inl (Error ''id must be numeric string'')"
proof -
  let ?fd = "[(''action'', Text ''update''), (''name'', Text []), (''id'', Text ''abc'')]"
  have a: "get ?fd ''action'' = Some (Text ''update'')"
    by (simp add: get_def)
  have n: "validateName ?fd = Inl (Error ''name must be at least 1 characters'')"
    by (simp add: validateName_def get_def)
  have i: "validateId ?fd = Inl (Error ''id must be numeric string'')"
    by (simp add: parse_defs)
  show ?thesis
    using update_name_error_first [OF a n i, of prisma_task "\<lparr>table = [], next_id = 1\<rparr>"] i
    by (intro conjI) (erule conjunct1, assumption)
qed

section \<open>Properties of the action on the task store\<close>

lemma prisma_task_sel [simp]:
  "findMany prisma_task = listTasks"
  "create prisma_task = createTask"
  "update prisma_task = updateTask"
  "delete prisma_task = deleteTask"
  by (simp_all add: prisma_task_def)

lemma find_None_map_id:
  "find P xs = None \<Longrightarrow> map (\<lambda>u. if P u then f u else u) xs = xs"
  by (induction xs) (auto split: if_splits)

lemma table_updateTask:
  "table (snd (updateTask w d s)) = map (\<lambda>u. if matches w u then write_fields d u else u) (table s)"
  by (cases "find (matches w) (table s)") (simp_all add: updateTask_def find_None_map_id)

lemma next_id_updateTask: "next_id (snd (updateTask w d s)) = next_id s"
  by (cases "find (matches w) (table s)") (simp_all add: updateTask_def)

lemma fst_updateTask:
  "fst (updateTask w d s) =
     (case find (matches w) (table s) of None \<Rightarrow> Inl NotFoundError
      | Some t \<Rightarrow> Inr (write_fields d t))"
  by (simp add: updateTask_def split: option.splits)

lemma snd_returnNull [simp]: "snd (returnNull r) = snd r"
  by (simp add: returnNull_def)

lemma fst_returnNull:
  "fst (returnNull r) = (case fst r of Inl e \<Rightarrow> Inl e | Inr t \<Rightarrow> Inr ())"
  by (simp add: returnNull_def)

lemma write_name_only:
  "write_fields \<lparr>set_name = Some n, set_done = None\<rparr> t = t\<lparr>task_name := n\<rparr>"
  by (simp add: write_fields_def)

lemma write_done_only:
  "write_fields \<lparr>set_name = None, set_done = Some b\<rparr> t = t\<lparr>task_done := b\<rparr>"
  by (simp add: write_fields_def)

lemma find_map_if:
  "find P xs = Some t \<Longrightarrow> (\<And>u. P (f u) = P u) \<Longrightarrow>
   find P (map (\<lambda>u. if P u then f u else u) xs) = Some (f t)"
  by (induction xs) (auto split: if_splits)

lemma matches_task_done [simp]: "matches w (t\<lparr>task_done := b\<rparr>) = matches w t"
  by (simp add: matches_def)

lemma set_done_existing:
  assumes "find (matches w) (table s) = Some t"
  shows "updateTask w \<lparr>set_name = None, set_done = Some b\<rparr> s
           = (Inr (t\<lparr>task_done := b\<rparr>),
              s\<lparr>table := map (\<lambda>u. if matches w u then u\<lparr>task_done := b\<rparr> else u) (table s)\<rparr>)"
  using assms by (simp add: updateTask_def write_done_only)

lemma find_after_set_done:
  assumes "find (matches w) xs = Some t"
  shows "find (matches w) (map (\<lambda>u. if matches w u then u\<lparr>task_done := b\<rparr> else u) xs)
           = Some (t\<lparr>task_done := b\<rparr>)"
  using assms by (rule find_map_if) simp

text \<open>
  C6: an \<^verbatim>\<open>update\<close> with a valid name and a valid id leaves the table as it was but for
  the name of the Task of that id: the identifiers and the \<^verbatim>\<open>done\<close> flags of all Tasks
  are unchanged, every other Task is unchanged, no Task is added or removed, and the
  caller gets \<open>NotFoundError\<close> exactly when no Task has the id.
\<close>

theorem update_replaces_name_only:
  assumes "get fd ''action'' = Some (Text ''update'')"
    and "validateName fd = Inr n"
    and "validateId fd = Inr w"
  shows "table (snd (action prisma_task fd s))
           = map (\<lambda>t. if matches w t then t\<lparr>task_name := n\<rparr> else t) (table s) \<and>
         map task_id (table (snd (action prisma_task fd s))) = map task_id (table s) \<and>
         map task_done (table (snd (action prisma_task fd s))) = map task_done (table s) \<and>
         next_id (snd (action prisma_task fd s)) = next_id s \<and>
         fst (action prisma_task fd s)
           = (if list_ex (matches w) (table s) then Inr () else Inl NotFoundError)"
proof -
  have a: "action prisma_task fd s
      = returnNull (updateTask w \<lparr>set_name = Some n, set_done = None\<rparr> s)"
    using assms by (simp add: action_update)
  have t: "table (snd (action prisma_task fd s))
      = map (\<lambda>t. if matches w t then t\<lparr>task_name := n\<rparr> else t) (table s)"
    by (simp add: a table_updateTask write_name_only)
  have i: "map task_id (map (\<lambda>t. if matches w t then t\<lparr>task_name := n\<rparr> else t) (table s))
      = map task_id (table s)"
    by (induction "table s") auto
  have d: "map task_done (map (\<lambda>t. if matches w t then t\<lparr>task_name := n\<rparr> else t) (table s))
      = map task_done (table s)"
    by (induction "table s") auto
  have x: "next_id (snd (action prisma_task fd s)) = next_id s"
    by (simp add: a next_id_updateTask)
  have r: "fst (action prisma_task fd s)
      = (if list_ex (matches w) (table s) then Inr () else Inl NotFoundError)"
  proof (cases "find (matches w) (table s)")
    case None
    then have "\<not> list_ex (matches w) (table s)"
      by (simp add: find_None_iff list_ex_iff)
    with None show ?thesis
      by (simp add: a fst_returnNull fst_updateTask)
  next
    case (Some t)
    then have "list_ex (matches w) (table s)"
      by (auto simp: find_Some_iff list_ex_iff)
    with Some show ?thesis
      by (simp add: a fst_returnNull fst_updateTask)
  qed
  show ?thesis
    using t i d x r by simp
qed

text \<open>Renaming Task 1 of two Tasks.\<close>

theorem update_replaces_name_only_witness:
  "table (snd (action prisma_task
       [(''action'', Text ''update''), (''name'', Text ''Buy oat milk''), (''id'', Text ''1'')]
       \<lparr>table = [\<lparr>task_id = 1, task_name = ''Buy milk'', task_done = True\<rparr>,
                  \<lparr>task_id = 2, task_name = ''Walk'', task_done = False\<rparr>],
         next_id = 3\<rparr>))
     = [\<lparr>task_id = 1, task_name = ''Buy oat milk'', task_done = True\<rparr>,
        \<lparr>task_id = 2, task_name = ''Walk'', task_done = False\<rparr>]"
proof -
  let ?fd = "[(''action'', Text ''update''), (''name'', Text ''Buy oat milk''), (''id'', Text ''1'')]"
  have 1: "get ?fd ''action'' = Some (Text ''update'')"
    by (simp add: get_def)
  have 2: "validateName ?fd = Inr ''Buy oat milk''"
    by (simp add: validateName_def get_def)
  have 3: "validateId ?fd = Inr (Num 1)"
    by (simp add: parse_defs)
  show ?thesis
    using update_replaces_name_only [OF 1 2 3,
        of "\<lparr>table = [\<lparr>task_id = 1, task_name = ''Buy milk'', task_done = True\<rparr>,
                  \<lparr>task_id = 2, task_name = ''Walk'', task_done = False\<rparr>], next_id = 3\<rparr>"]
    by (simp add: matches_def)
qed

text \<open>
  C7: for a Task that exists, \<^verbatim>\<open>done\<close> and then \<^verbatim>\<open>undone\<close> with its id both succeed;
  after the first the Task is as before but \<^verbatim>\<open>done\<close>, after the second it is as before
  but not \<^verbatim>\<open>done\<close>: its name (and id) is the one it had.
\<close>

theorem done_then_undone:
  assumes "get fd1 ''action'' = Some (Text ''done'')"
    and "validateId fd1 = Inr w"
    and "get fd2 ''action'' = Some (Text ''undone'')"
    and "validateId fd2 = Inr w"
    and "find (matches w) (table s) = Some t"
  shows "fst (action prisma_task fd1 s) = Inr () \<and>
         find (matches w) (table (snd (action prisma_task fd1 s))) = Some (t\<lparr>task_done := True\<rparr>) \<and>
         fst (action prisma_task fd2 (snd (action prisma_task fd1 s))) = Inr () \<and>
         find (matches w) (table (snd (action prisma_task fd2 (snd (action prisma_task fd1 s)))))
           = Some (t\<lparr>task_done := False\<rparr>)"
proof -
  let ?s1 = "s\<lparr>table := map (\<lambda>u. if matches w u then u\<lparr>task_done := True\<rparr> else u) (table s)\<rparr>"
  have a1: "action prisma_task fd1 s = (Inr (), ?s1)"
    using assms(1,2) set_done_existing [OF assms(5), of True]
    by (simp add: action_done returnNull_def)
  have f1: "find (matches w) (table ?s1) = Some (t\<lparr>task_done := True\<rparr>)"
    using find_after_set_done [OF assms(5), of True] by simp
  let ?s2 = "?s1\<lparr>table := map (\<lambda>u. if matches w u then u\<lparr>task_done := False\<rparr> else u) (table ?s1)\<rparr>"
  have a2: "action prisma_task fd2 ?s1 = (Inr (), ?s2)"
    using assms(3,4) set_done_existing [OF f1, of False]
    by (simp add: action_undone returnNull_def)
  have f2: "find (matches w) (table ?s2) = Some (t\<lparr>task_done := True, task_done := False\<rparr>)"
    using find_after_set_done [OF f1, of False] by simp
  show ?thesis
    using f1 f2 by (simp add: a1 a2)
qed

text \<open>On Task 1 of two Tasks, both \<^verbatim>\<open>done\<close> before.\<close>

theorem done_then_undone_witness:
  "find (matches (Num 1))
     (table (snd (action prisma_task [(''action'', Text ''undone''), (''id'', Text ''1'')]
        (snd (action prisma_task [(''action'', Text ''done''), (''id'', Text ''1'')]
           \<lparr>table = [\<lparr>task_id = 1, task_name = ''Buy milk'', task_done = True\<rparr>,
                      \<lparr>task_id = 2, task_name = ''Walk'', task_done = True\<rparr>],
             next_id = 3\<rparr>)))))
     = Some \<lparr>task_id = 1, task_name = ''Buy milk'', task_done = False\<rparr>"
proof -
  let ?fd1 = "[(''action'', Text ''done''), (''id'', Text ''1'')]"
  let ?fd2 = "[(''action'', Text ''undone''), (''id'', Text ''1'')]"
  let ?t = "\<lparr>task_id = 1, task_name = ''Buy milk'', task_done = True\<rparr>"
  let ?s = "\<lparr>table = [?t, \<lparr>task_id = 2, task_name = ''Walk'', task_done = True\<rparr>], next_id = 3\<rparr>"
  have 1: "get ?fd1 ''action'' = Some (Text ''done'')"
    by (simp add: get_def)
  have 2: "validateId ?fd1 = Inr (Num 1)"
    by (simp add: parse_defs)
  have 3: "get ?fd2 ''action'' = Some (Text ''undone'')"
    by (simp add: get_def)
  have 4: "validateId ?fd2 = Inr (Num 1)"
    by (simp add: parse_defs)
  have 5: "find (matches (Num 1)) (table ?s) = Some ?t"
    by (simp add: matches_def)
  show ?thesis
    using done_then_undone [OF 1 2 3 4 5] by simp
qed

text \<open>
  C8: an \<^verbatim>\<open>add\<close> with a valid name succeeds and appends exactly one Task, with that
  name and \<^verbatim>\<open>done = false\<close>, and the loader then returns the former list followed by
  that Task.
\<close>

theorem add_creates_task:
  assumes "get fd ''action'' = Some (Text ''add'')"
    and "validateName fd = Inr n"
  shows "action prisma_task fd s
           = (Inr (),
              s\<lparr>table := table s @ [\<lparr>task_id = next_id s, task_name = n, task_done = False\<rparr>],
                next_id := next_id s + 1\<rparr>) \<and>
         loader prisma_task (snd (action prisma_task fd s))
           = loader prisma_task s @ [\<lparr>task_id = next_id s, task_name = n, task_done = False\<rparr>]"
  using assms
  by (simp add: action_add returnNull_def createTask_def loader_def listTasks_def Let_def)

text \<open>\<^verbatim>\<open>{action: "add", name: "Buy milk"}\<close> on a store holding one Task.\<close>

theorem add_creates_task_witness:
  "loader prisma_task
     (snd (action prisma_task [(''action'', Text ''add''), (''name'', Text ''Buy milk'')]
        \<lparr>table = [\<lparr>task_id = 1, task_name = ''Walk'', task_done = True\<rparr>], next_id = 2\<rparr>))
     = [\<lparr>task_id = 1, task_name = ''Walk'', task_done = True\<rparr>,
        \<lparr>task_id = 2, task_name = ''Buy milk'', task_done = False\<rparr>]"
proof -
  let ?fd = "[(''action'', Text ''add''), (''name'', Text ''Buy milk'')]"
  have 1: "get ?fd ''action'' = Some (Text ''add'')"
    by (simp add: get_def)
  have 2: "validateName ?fd = Inr ''Buy milk''"
    by (simp add: validateName_def get_def)
  show ?thesis
    using add_creates_task [OF 1 2,
        of "\<lparr>table = [\<lparr>task_id = 1, task_name = ''Walk'', task_done = True\<rparr>], next_id = 2\<rparr>"]
    by (simp add: loader_def listTasks_def)
qed

section \<open>Properties of the rows\<close>

lemmas row_defs =
  onStartEditing_def onFinishEditing_def isPending_def effect_def onClickText_def
  submit_def

lemma tasks_effect [simp]: "tasks (effect task st) = tasks st"
  by (simp add: effect_def onFinishEditing_def)

lemma submissions_effect [simp]: "submissions (effect task st) = submissions st"
  by (simp add: effect_def onFinishEditing_def)

lemma tasks_effects [simp]: "tasks (fold effect ts st) = tasks st"
  by (induction ts arbitrary: st) simp_all

lemma submissions_effects [simp]: "submissions (fold effect ts st) = submissions st"
  by (induction ts arbitrary: st) simp_all

lemma tasks_reload [simp]: "tasks (reload loaded st) = loaded"
  by (simp add: reload_def)

lemma submissions_reload:
  "submissions (reload loaded st) i =
     (if i \<in> task_id ` set (tasks st) \<and> i \<in> task_id ` set loaded then submissions st i
      else None)"
  by (simp add: reload_def)

lemma no_new_rows:
  "\<not> list_ex (\<lambda>task. task_id task \<notin> S) loaded \<Longrightarrow>
   filter (\<lambda>task. task_id task \<notin> S) loaded = []"
  by (simp add: list_ex_iff filter_empty_conv)

lemma editingId_reload:
  "\<not> list_ex (\<lambda>task. task_id task \<notin> task_id ` set (tasks st)) loaded \<Longrightarrow>
   editingId (reload loaded st) = editingId st"
  by (simp add: reload_def no_new_rows)

lemma tasks_settle [simp]: "tasks (settle task loaded st) = loaded"
  by (simp add: settle_def Let_def split: option.splits)

lemma distinct_handle:
  assumes "distinct (map task_id (tasks st))" and "well_keyed e"
  shows "distinct (map task_id (tasks (handle e task st)))"
  using assms by (cases e) (simp_all add: row_defs well_keyed_def)

lemma distinct_step:
  assumes "distinct (map task_id (tasks st))" and "well_keyed e"
  shows "distinct (map task_id (tasks (step e st)))"
proof (cases "row e")
  case None
  with assms show ?thesis
    by (cases e) (simp_all add: step_def well_keyed_def)
next
  case (Some i)
  with assms show ?thesis
    by (simp add: step_def distinct_handle split: option.splits)
qed

lemma distinct_run:
  "distinct (map task_id (tasks st)) \<Longrightarrow> list_all well_keyed es \<Longrightarrow>
   distinct (map task_id (tasks (run es st)))"
  unfolding run_def
  by (induction es arbitrary: st) (simp_all add: distinct_step)

lemma find_row_id:
  "find (\<lambda>task. task_id task = i) ts = Some task \<Longrightarrow> task_id task = i \<and> task \<in> set ts"
  by (auto simp: find_Some_iff)

lemma find_row_exists:
  "i \<in> task_id ` set ts \<Longrightarrow> \<exists>task. find (\<lambda>task. task_id task = i) ts = Some task"
  by (cases "find (\<lambda>task. task_id task = i) ts") (auto simp: find_None_iff)

lemma step_row:
  assumes "t \<in> set (tasks st)" and "row e = Some (task_id t)"
  shows "\<exists>task. task_id task = task_id t \<and> step e st = handle e task st"
proof -
  from assms(1) have "task_id t \<in> task_id ` set (tasks st)"
    by simp
  then obtain task
    where f: "find (\<lambda>task. task_id task = task_id t) (tasks st) = Some task"
    using find_row_exists by blast
  then have "task_id task = task_id t"
    using find_row_id by blast
  moreover have "step e st = handle e task st"
    using f assms(2) by (simp add: step_def)
  ultimately show ?thesis
    by blast
qed

lemma one_with_key:
  "distinct (map f xs) \<Longrightarrow> length (filter (\<lambda>x. f x = a) xs) \<le> Suc 0"
proof (induction xs)
  case Nil
  then show ?case by simp
next
  case (Cons x xs)
  show ?case
  proof (cases "f x = a")
    case True
    with Cons.prems have "a \<notin> f ` set xs"
      by simp
    then have "\<forall>y\<in>set xs. f y \<noteq> a"
      by blast
    then have "filter (\<lambda>x. f x = a) xs = []"
      by (simp add: filter_empty_conv)
    with True show ?thesis by simp
  next
    case False
    with Cons show ?thesis by simp
  qed
qed

lemma editing_rows_le_1:
  assumes "distinct (map task_id (tasks st))"
  shows "length (filter (isEditing st) (tasks st)) \<le> 1"
proof (cases "editingId st")
  case None
  then show ?thesis by (simp add: isEditing_def)
next
  case (Some i)
  then have "filter (isEditing st) (tasks st) = filter (\<lambda>t. task_id t = i) (tasks st)"
    by (auto simp: isEditing_def intro: filter_cong)
  with assms show ?thesis
    by (simp add: one_with_key)
qed

lemma click_text_claims:
  assumes "A \<in> set (tasks st)" and "\<not> isPending st A"
  shows "editingId (step (ClickText (task_id A)) st) = Some (task_id A)"
proof -
  have "row (ClickText (task_id A)) = Some (task_id A)"
    by simp
  with assms(1) obtain task where t: "task_id task = task_id A"
    and s: "step (ClickText (task_id A)) st = handle (ClickText (task_id A)) task st"
    using step_row by blast
  from t assms(2) have "\<not> isPending st task"
    by (simp add: isPending_def)
  with t s show ?thesis
    by (simp add: onClickText_def onStartEditing_def)
qed

text \<open>
  C5: when the tasks of the list, and of every list a reload brings, have distinct
  identifiers, at most one row is editing after any sequence of events; and a click on
  the name area of a row \<open>A\<close> that is not pending, while another row \<open>B\<close> is editing,
  leaves \<open>A\<close> editing and \<open>B\<close> not.
\<close>

theorem editing_exclusive:
  assumes "distinct (map task_id (tasks st))" and "list_all well_keyed es"
  shows "length (filter (isEditing (run es st)) (tasks (run es st))) \<le> 1 \<and>
         (A \<in> set (tasks st) \<and> B \<in> set (tasks st) \<and> task_id B \<noteq> task_id A \<and>
          isEditing st B \<and> \<not> isPending st A
            \<longrightarrow> isEditing (step (ClickText (task_id A)) st) A \<and>
                \<not> isEditing (step (ClickText (task_id A)) st) B)"
proof
  have "distinct (map task_id (tasks (run es st)))"
    using assms by (rule distinct_run)
  then show "length (filter (isEditing (run es st)) (tasks (run es st))) \<le> 1"
    by (rule editing_rows_le_1)
  show "A \<in> set (tasks st) \<and> B \<in> set (tasks st) \<and> task_id B \<noteq> task_id A \<and>
          isEditing st B \<and> \<not> isPending st A
            \<longrightarrow> isEditing (step (ClickText (task_id A)) st) A \<and>
                \<not> isEditing (step (ClickText (task_id A)) st) B"
    by (auto simp: isEditing_def click_text_claims)
qed

text \<open>
  Two rows, the second editing, and a click on the first; the trace holds a change of
  the second row's checkbox and the end of that submission, with the list reloaded.
\<close>

theorem editing_exclusive_witness:
  "isEditing \<lparr>tasks = [\<lparr>task_id = 1, task_name = ''a'', task_done = False\<rparr>,
                        \<lparr>task_id = 2, task_name = ''b'', task_done = False\<rparr>],
              editingId = Some 2, submissions = Map.empty\<rparr>
     \<lparr>task_id = 2, task_name = ''b'', task_done = False\<rparr> \<and>
   isEditing
     (step (ClickText 1)
        \<lparr>tasks = [\<lparr>task_id = 1, task_name = ''a'', task_done = False\<rparr>,
                   \<lparr>task_id = 2, task_name = ''b'', task_done = False\<rparr>],
          editingId = Some 2, submissions = Map.empty\<rparr>)
     \<lparr>task_id = 1, task_name = ''a'', task_done = False\<rparr> \<and>
   \<not> isEditing
     (step (ClickText 1)
        \<lparr>tasks = [\<lparr>task_id = 1, task_name = ''a'', task_done = False\<rparr>,
                   \<lparr>task_id = 2, task_name = ''b'', task_done = False\<rparr>],
          editingId = Some 2, submissions = Map.empty\<rparr>)
     \<lparr>task_id = 2, task_name = ''b'', task_done = False\<rparr> \<and>
   length (filter
      (isEditing (run [ClickText 1, ChangeCheckbox 2,
           Settled 2 [\<lparr>task_id = 1, task_name = ''a'', task_done = False\<rparr>,
                      \<lparr>task_id = 2, task_name = ''b'', task_done = True\<rparr>],
           ClickText 2]
        \<lparr>tasks = [\<lparr>task_id = 1, task_name = ''a'', task_done = False\<rparr>,
                   \<lparr>task_id = 2, task_name = ''b'', task_done = False\<rparr>],
          editingId = Some 2, submissions = Map.empty\<rparr>))
      (tasks (run [ClickText 1, ChangeCheckbox 2,
           Settled 2 [\<lparr>task_id = 1, task_name = ''a'', task_done = False\<rparr>,
                      \<lparr>task_id = 2, task_name = ''b'', task_done = True\<rparr>],
           ClickText 2]
        \<lparr>tasks = [\<lparr>task_id = 1, task_name = ''a'', task_done = False\<rparr>,
                   \<lparr>task_id = 2, task_name = ''b'', task_done = False\<rparr>],
          editingId = Some 2, submissions = Map.empty\<rparr>))) \<le> 1"
proof -
  let ?A = "\<lparr>task_id = 1, task_name = ''a'', task_done = False\<rparr>"
  let ?B = "\<lparr>task_id = 2, task_name = ''b'', task_done = False\<rparr>"
  let ?B' = "\<lparr>task_id = 2, task_name = ''b'', task_done = True\<rparr>"
  let ?st = "\<lparr>tasks = [?A, ?B], editingId = Some 2, submissions = Map.empty\<rparr>"
  let ?es = "[ClickText 1, ChangeCheckbox 2, Settled 2 [?A, ?B'], ClickText 2]"
  have d: "distinct (map task_id (tasks ?st))"
    by simp
  have k: "list_all well_keyed ?es"
    by (simp add: well_keyed_def)
  have h: "?A \<in> set (tasks ?st) \<and> ?B \<in> set (tasks ?st) \<and> task_id ?B \<noteq> task_id ?A \<and>
      isEditing ?st ?B \<and> \<not> isPending ?st ?A"
    by (simp add: isEditing_def isPending_def)
  note t = editing_exclusive [OF d k, of ?A ?B]
  have c: "isEditing (step (ClickText (task_id ?A)) ?st) ?A \<and>
      \<not> isEditing (step (ClickText (task_id ?A)) ?st) ?B"
    by (rule t [THEN conjunct2, rule_format, OF h])
  have e: "isEditing ?st ?B"
    using h by blast
  show ?thesis
    using c e t [THEN conjunct1] by simp
qed

lemmas event_defs = Index_def run_def step_def isEditing_def settle_def reload_def row_defs

text \<open>
  C1, as stated, at a row that is editing and whose checkbox is changed: the submission
  in flight is a \<^verbatim>\<open>done\<close>, not an update, and when it ends the row leaves edit mode,
  with no Cancel and no other row entering it.
\<close>

theorem own_toggle_settled_counterexample:
  "isEditing
     (run [ClickText 1, ChangeCheckbox 1]
        (Index [\<lparr>task_id = 1, task_name = ''a'', task_done = False\<rparr>,
                \<lparr>task_id = 2, task_name = ''b'', task_done = False\<rparr>]))
     \<lparr>task_id = 1, task_name = ''a'', task_done = False\<rparr> \<and>
   submissions
     (run [ClickText 1, ChangeCheckbox 1]
        (Index [\<lparr>task_id = 1, task_name = ''a'', task_done = False\<rparr>,
                \<lparr>task_id = 2, task_name = ''b'', task_done = False\<rparr>])) 1
     = Some ''done'' \<and>
   editingId
     (run [ClickText 1, ChangeCheckbox 1,
           Settled 1 [\<lparr>task_id = 1, task_name = ''a'', task_done = True\<rparr>,
                      \<lparr>task_id = 2, task_name = ''b'', task_done = False\<rparr>]]
        (Index [\<lparr>task_id = 1, task_name = ''a'', task_done = False\<rparr>,
                \<lparr>task_id = 2, task_name = ''b'', task_done = False\<rparr>]))
     = None \<and>
   \<not> isEditing
     (run [ClickText 1, ChangeCheckbox 1,
           Settled 1 [\<lparr>task_id = 1, task_name = ''a'', task_done = True\<rparr>,
                      \<lparr>task_id = 2, task_name = ''b'', task_done = False\<rparr>]]
        (Index [\<lparr>task_id = 1, task_name = ''a'', task_done = False\<rparr>,
                \<lparr>task_id = 2, task_name = ''b'', task_done = False\<rparr>]))
     \<lparr>task_id = 1, task_name = ''a'', task_done = True\<rparr>"
  by (simp add: event_defs)

text \<open>
  The end of the submission of another row ends the edit mode as well: the effect of
  row 2 calls \<^verbatim>\<open>onFinishEditing(2)\<close>, and \<^verbatim>\<open>Index\<close> clears \<^verbatim>\<open>editingId\<close> without reading
  the identifier. So does the mounting of a new row, whose effect runs after its first
  render. After a delete that succeeded the row is gone, its effect does not run, and
  \<^verbatim>\<open>editingId\<close> is kept.
\<close>

lemma other_row_settled_ends_editing:
  "isEditing
     (run [ClickText 1, ChangeCheckbox 2]
        (Index [\<lparr>task_id = 1, task_name = ''a'', task_done = False\<rparr>,
                \<lparr>task_id = 2, task_name = ''b'', task_done = False\<rparr>]))
     \<lparr>task_id = 1, task_name = ''a'', task_done = False\<rparr> \<and>
   \<not> isEditing
     (run [ClickText 1, ChangeCheckbox 2,
           Settled 2 [\<lparr>task_id = 1, task_name = ''a'', task_done = False\<rparr>,
                      \<lparr>task_id = 2, task_name = ''b'', task_done = True\<rparr>]]
        (Index [\<lparr>task_id = 1, task_name = ''a'', task_done = False\<rparr>,
                \<lparr>task_id = 2, task_name = ''b'', task_done = False\<rparr>]))
     \<lparr>task_id = 1, task_name = ''a'', task_done = False\<rparr>"
  by (simp add: event_defs)

lemma new_row_ends_editing:
  "\<not> isEditing
     (run [ClickText 1,
           Reloaded [\<lparr>task_id = 1, task_name = ''a'', task_done = False\<rparr>,
                     \<lparr>task_id = 2, task_name = ''b'', task_done = False\<rparr>,
                     \<lparr>task_id = 3, task_name = ''c'', task_done = False\<rparr>]]
        (Index [\<lparr>task_id = 1, task_name = ''a'', task_done = False\<rparr>,
                \<lparr>task_id = 2, task_name = ''b'', task_done = False\<rparr>]))
     \<lparr>task_id = 1, task_name = ''a'', task_done = False\<rparr>"
  by (simp add: event_defs)

lemma deleted_row_keeps_editingId:
  "editingId
     (run [ClickText 1, SubmitDelete 1,
           Settled 1 [\<lparr>task_id = 2, task_name = ''b'', task_done = False\<rparr>]]
        (Index [\<lparr>task_id = 1, task_name = ''a'', task_done = False\<rparr>,
                \<lparr>task_id = 2, task_name = ''b'', task_done = False\<rparr>]))
     = Some 1"
  by (simp add: event_defs)

lemma cancel_exits:
  assumes "t \<in> set (tasks st)" and "isEditing st t" and "\<not> isPending st t"
  shows "\<not> isEditing (step (ClickCancel (task_id t)) st) t"
proof -
  have "row (ClickCancel (task_id t)) = Some (task_id t)"
    by simp
  with assms(1) obtain task where t: "task_id task = task_id t"
    and s: "step (ClickCancel (task_id t)) st = handle (ClickCancel (task_id t)) task st"
    using step_row by blast
  from t assms(2,3) have "isEditing st task" and "\<not> isPending st task"
    by (simp_all add: isEditing_def isPending_def)
  then show ?thesis
    by (simp add: s isEditing_def onFinishEditing_def)
qed

lemma settle_listed:
  assumes "task_id task \<in> task_id ` set loaded"
  shows "editingId (settle task loaded st) = None"
proof -
  let ?st' = "reload loaded (st\<lparr>submissions := (submissions st)(task_id task := None)\<rparr>)"
  from assms obtain task'
    where f: "find (\<lambda>task'. task_id task' = task_id task) loaded = Some task'"
    using find_row_exists by blast
  then have i: "task_id task' = task_id task"
    using find_row_id by blast
  have "submissions ?st' (task_id task) = None"
    by (simp add: submissions_reload)
  with i have "\<not> isPending ?st' task'"
    by (simp add: isPending_def)
  then have "editingId (effect task' ?st') = None"
    by (simp add: effect_def onFinishEditing_def)
  with f show ?thesis
    by (simp add: settle_def Let_def)
qed

lemma own_settled_exits:
  assumes "t \<in> set (tasks st)" and "isPending st t"
    and "task_id t \<in> task_id ` set loaded"
  shows "\<not> isEditing (step (Settled (task_id t) loaded) st) t"
proof -
  have "row (Settled (task_id t) loaded) = Some (task_id t)"
    by simp
  with assms(1) obtain task where t: "task_id task = task_id t"
    and s: "step (Settled (task_id t) loaded) st = handle (Settled (task_id t) loaded) task st"
    using step_row by blast
  from t assms(2) have p: "isPending st task"
    by (simp add: isPending_def)
  from t assms(3) have "editingId (settle task loaded st) = None"
    by (simp add: settle_listed)
  with p show ?thesis
    by (simp add: s isEditing_def)
qed

lemma other_click_exits:
  assumes "B \<in> set (tasks st)" and "task_id B \<noteq> task_id t" and "\<not> isPending st B"
  shows "\<not> isEditing (step (ClickText (task_id B)) st) t"
  using click_text_claims [OF assms(1,3)] assms(2) by (simp add: isEditing_def)

lemma editingId_submit: "editingId (submit task act st) = editingId st"
  by (simp add: submit_def effect_def isPending_def)

lemma settle_unlisted:
  assumes "\<not> list_ex (\<lambda>task. task_id task \<notin> task_id ` set (tasks st)) loaded"
    and "task_id task \<notin> task_id ` set loaded"
  shows "editingId (settle task loaded st) = editingId st"
proof -
  let ?st0 = "st\<lparr>submissions := (submissions st)(task_id task := None)\<rparr>"
  have "\<forall>task'\<in>set loaded. task_id task' \<noteq> task_id task"
    using assms(2) by (metis imageI)
  then have "find (\<lambda>task'. task_id task' = task_id task) loaded = None"
    by (simp add: find_None_iff)
  then have "settle task loaded st = reload loaded ?st0"
    by (simp add: settle_def Let_def)
  moreover have "editingId (reload loaded ?st0) = editingId ?st0"
    using assms(1) by (intro editingId_reload) simp
  ultimately show ?thesis
    by simp
qed

lemma handle_ends_editing:
  assumes "isEditing st t" and "\<not> isEditing (handle e task st) t" and "\<not> mounts st e"
  shows "(\<exists>i. e = ClickCancel i \<and> task_id task = task_id t \<and> \<not> isPending st task) \<or>
         (\<exists>i loaded. e = Settled i loaded \<and> isPending st task \<and>
            task_id task \<in> task_id ` set loaded) \<or>
         (\<exists>i. e = ClickText i \<and> task_id task \<noteq> task_id t \<and> \<not> isPending st task)"
proof (cases e)
  case (ClickText i)
  with assms show ?thesis
    by (auto simp: isEditing_def onClickText_def onStartEditing_def split: if_splits)
next
  case (ClickCancel i)
  with assms show ?thesis
    by (auto simp: isEditing_def onFinishEditing_def split: if_splits)
next
  case (ChangeCheckbox i)
  with assms show ?thesis
    by (auto simp: isEditing_def editingId_submit split: if_splits)
next
  case (SubmitUpdate i)
  with assms show ?thesis
    by (auto simp: isEditing_def editingId_submit split: if_splits)
next
  case (SubmitDelete i)
  with assms show ?thesis
    by (auto simp: isEditing_def editingId_submit split: if_splits)
next
  case (Settled i loaded)
  with assms(3) have n: "\<not> list_ex (\<lambda>task. task_id task \<notin> task_id ` set (tasks st)) loaded"
    by (simp add: mounts_def)
  show ?thesis
  proof (cases "isPending st task \<and> task_id task \<in> task_id ` set loaded")
    case True
    with Settled show ?thesis by simp
  next
    case False
    then consider "\<not> isPending st task"
      | "isPending st task" and "task_id task \<notin> task_id ` set loaded"
      by blast
    then have "editingId (handle e task st) = editingId st"
    proof cases
      case 1
      with Settled show ?thesis by simp
    next
      case 2
      with Settled n show ?thesis by (simp add: settle_unlisted)
    qed
    with assms(1,2) show ?thesis
      by (simp add: isEditing_def)
  qed
next
  case (Reloaded loaded)
  with assms(3) have "\<not> list_ex (\<lambda>task. task_id task \<notin> task_id ` set (tasks st)) loaded"
    by (simp add: mounts_def)
  then have "editingId (reload loaded st) = editingId st"
    by (rule editingId_reload)
  with assms(1,2) Reloaded show ?thesis
    by (simp add: isEditing_def)
qed

lemma editing_left_by:
  assumes "isEditing st t" and "\<not> isEditing (step e st) t" and "\<not> mounts st e"
    and "\<forall>j loaded. e = Settled j loaded \<longrightarrow> j = task_id t"
  shows "(e = ClickCancel (task_id t) \<and> \<not> isPending st t) \<or>
         (\<exists>loaded. e = Settled (task_id t) loaded \<and> isPending st t \<and>
            task_id t \<in> task_id ` set loaded) \<or>
         (\<exists>B\<in>set (tasks st). task_id B \<noteq> task_id t \<and> e = ClickText (task_id B) \<and>
            \<not> isPending st B)"
proof (cases "row e")
  case None
  then obtain loaded where e: "e = Reloaded loaded"
    by (cases e) simp_all
  with assms(3) have "editingId (reload loaded st) = editingId st"
    by (simp add: mounts_def editingId_reload)
  with assms(1,2) e show ?thesis
    by (simp add: step_def isEditing_def)
next
  case (Some i)
  show ?thesis
  proof (cases "find (\<lambda>task. task_id task = i) (tasks st)")
    case None
    with Some assms(1,2) show ?thesis
      by (simp add: step_def)
  next
    case (Some task)
    then have r: "task_id task = i" and m: "task \<in> set (tasks st)"
      using find_row_id by blast+
    from Some \<open>row e = Some i\<close> assms(2) have "\<not> isEditing (handle e task st) t"
      by (simp add: step_def)
    with assms(1) have h:
      "(\<exists>i. e = ClickCancel i \<and> task_id task = task_id t \<and> \<not> isPending st task) \<or>
       (\<exists>i loaded. e = Settled i loaded \<and> isPending st task \<and>
          task_id task \<in> task_id ` set loaded) \<or>
       (\<exists>i. e = ClickText i \<and> task_id task \<noteq> task_id t \<and> \<not> isPending st task)"
      using assms(3) by (rule handle_ends_editing)
    then consider
      (cancel) j where "e = ClickCancel j" "task_id task = task_id t" "\<not> isPending st task"
      | (settled) j loaded where "e = Settled j loaded" "isPending st task"
          "task_id task \<in> task_id ` set loaded"
      | (click) j where "e = ClickText j" "task_id task \<noteq> task_id t" "\<not> isPending st task"
      by blast
    then show ?thesis
    proof cases
      case cancel
      with r \<open>row e = Some i\<close> have "e = ClickCancel (task_id t)"
        by simp
      moreover from cancel have "\<not> isPending st t"
        by (simp add: isPending_def)
      ultimately show ?thesis
        by simp
    next
      case settled
      with assms(4) have j: "j = task_id t"
        by simp
      with settled r \<open>row e = Some i\<close> have "task_id task = task_id t"
        by simp
      with settled j have "e = Settled (task_id t) loaded \<and> isPending st t \<and>
          task_id t \<in> task_id ` set loaded"
        by (simp add: isPending_def)
      then show ?thesis
        by blast
    next
      case click
      with r \<open>row e = Some i\<close> have "e = ClickText (task_id task)"
        by simp
      with click m show ?thesis
        by blast
    qed
  qed
qed

text \<open>
  C1, amended: a row that is editing leaves edit mode on Cancel while it is not pending,
  at the end of a submission of its own after which it is still listed (an update or a
  \<^verbatim>\<open>done\<close>/\<^verbatim>\<open>undone\<close>), and when a different row that is not pending is clicked on its
  name area; and an event that ends its edit mode, and is neither the end of another
  row's submission nor a reload that mounts a new row, is one of these three, under
  these conditions. What those two kinds of event do is left open here.
\<close>

theorem editing_exits:
  assumes "t \<in> set (tasks st)" and "isEditing st t"
  shows "(\<not> isPending st t \<longrightarrow> \<not> isEditing (step (ClickCancel (task_id t)) st) t) \<and>
         (isPending st t \<and> task_id t \<in> task_id ` set loaded
            \<longrightarrow> \<not> isEditing (step (Settled (task_id t) loaded) st) t) \<and>
         (B \<in> set (tasks st) \<and> task_id B \<noteq> task_id t \<and> \<not> isPending st B
            \<longrightarrow> \<not> isEditing (step (ClickText (task_id B)) st) t) \<and>
         (\<not> isEditing (step e st) t \<and> \<not> mounts st e \<and>
          (\<forall>j loaded'. e = Settled j loaded' \<longrightarrow> j = task_id t)
            \<longrightarrow> (e = ClickCancel (task_id t) \<and> \<not> isPending st t) \<or>
                (\<exists>loaded'. e = Settled (task_id t) loaded' \<and> isPending st t \<and>
                   task_id t \<in> task_id ` set loaded') \<or>
                (\<exists>B'\<in>set (tasks st). task_id B' \<noteq> task_id t \<and>
                   e = ClickText (task_id B') \<and> \<not> isPending st B'))"
proof (intro conjI impI)
  assume "\<not> isPending st t"
  with assms show "\<not> isEditing (step (ClickCancel (task_id t)) st) t"
    by (rule cancel_exits)
next
  assume "isPending st t \<and> task_id t \<in> task_id ` set loaded"
  with assms(1) show "\<not> isEditing (step (Settled (task_id t) loaded) st) t"
    by (simp add: own_settled_exits)
next
  assume "B \<in> set (tasks st) \<and> task_id B \<noteq> task_id t \<and> \<not> isPending st B"
  then show "\<not> isEditing (step (ClickText (task_id B)) st) t"
    by (simp add: other_click_exits)
next
  assume a: "\<not> isEditing (step e st) t \<and> \<not> mounts st e \<and>
          (\<forall>j loaded'. e = Settled j loaded' \<longrightarrow> j = task_id t)"
  then have 1: "\<not> isEditing (step e st) t" and 2: "\<not> mounts st e"
    and 3: "\<forall>j loaded'. e = Settled j loaded' \<longrightarrow> j = task_id t"
    by blast+
  from assms(2) 1 2 3
  show "(e = ClickCancel (task_id t) \<and> \<not> isPending st t) \<or>
                (\<exists>loaded'. e = Settled (task_id t) loaded' \<and> isPending st t \<and>
                   task_id t \<in> task_id ` set loaded') \<or>
                (\<exists>B'\<in>set (tasks st). task_id B' \<noteq> task_id t \<and>
                   e = ClickText (task_id B') \<and> \<not> isPending st B')"
    by (rule editing_left_by)
qed

text \<open>
  Row 1 of two rows, editing: Cancel and a click on row 2 while it is not pending, and
  the end of its update while it is.
\<close>

theorem editing_exits_witness:
  "\<not> isEditing
     (step (ClickCancel 1)
        \<lparr>tasks = [\<lparr>task_id = 1, task_name = ''a'', task_done = False\<rparr>,
                   \<lparr>task_id = 2, task_name = ''b'', task_done = False\<rparr>],
          editingId = Some 1, submissions = Map.empty\<rparr>)
     \<lparr>task_id = 1, task_name = ''a'', task_done = False\<rparr> \<and>
   \<not> isEditing
     (step (ClickText 2)
        \<lparr>tasks = [\<lparr>task_id = 1, task_name = ''a'', task_done = False\<rparr>,
                   \<lparr>task_id = 2, task_name = ''b'', task_done = False\<rparr>],
          editingId = Some 1, submissions = Map.empty\<rparr>)
     \<lparr>task_id = 1, task_name = ''a'', task_done = False\<rparr> \<and>
   \<not> isEditing
     (step (Settled 1 [\<lparr>task_id = 1, task_name = ''a2'', task_done = False\<rparr>,
                       \<lparr>task_id = 2, task_name = ''b'', task_done = False\<rparr>])
        \<lparr>tasks = [\<lparr>task_id = 1, task_name = ''a'', task_done = False\<rparr>,
                   \<lparr>task_id = 2, task_name = ''b'', task_done = False\<rparr>],
          editingId = Some 1, submissions = [1 \<mapsto> ''update'']\<rparr>)
     \<lparr>task_id = 1, task_name = ''a'', task_done = False\<rparr>"
proof -
  let ?A = "\<lparr>task_id = 1, task_name = ''a'', task_done = False\<rparr>"
  let ?A' = "\<lparr>task_id = 1, task_name = ''a2'', task_done = False\<rparr>"
  let ?B = "\<lparr>task_id = 2, task_name = ''b'', task_done = False\<rparr>"
  let ?st = "\<lparr>tasks = [?A, ?B], editingId = Some 1, submissions = Map.empty\<rparr>"
  let ?sp = "\<lparr>tasks = [?A, ?B], editingId = Some 1, submissions = [1 \<mapsto> ''update'']\<rparr>"
  have m: "?A \<in> set (tasks ?st)" and mp: "?A \<in> set (tasks ?sp)"
    by simp_all
  have e: "isEditing ?st ?A" and ep: "isEditing ?sp ?A"
    by (simp_all add: isEditing_def)
  have p: "\<not> isPending ?st ?A"
    by (simp add: isPending_def)
  have b: "?B \<in> set (tasks ?st) \<and> task_id ?B \<noteq> task_id ?A \<and> \<not> isPending ?st ?B"
    by (simp add: isPending_def)
  have s: "isPending ?sp ?A \<and> task_id ?A \<in> task_id ` set [?A', ?B]"
    by (simp add: isPending_def)
  note t = editing_exits [OF m e, of _ ?B]
  note tp = editing_exits [OF mp ep, of "[?A', ?B]"]
  have c1: "\<not> isEditing (step (ClickCancel (task_id ?A)) ?st) ?A"
    by (rule t [THEN conjunct1, rule_format, OF p])
  have c3: "\<not> isEditing (step (ClickText (task_id ?B)) ?st) ?A"
    by (rule t [THEN conjunct2, THEN conjunct2, THEN conjunct1, rule_format, OF b])
  have c2: "\<not> isEditing (step (Settled (task_id ?A) [?A', ?B]) ?sp) ?A"
    by (rule tp [THEN conjunct2, THEN conjunct1, rule_format, OF s])
  show ?thesis
    using c1 c2 c3 by simp
qed

end
